theory Spec2Isabelle
  imports Main
begin

section \<open>Data model\<close>

text \<open>
  The server keeps two collections in MongoDB: the User documents (through the mongoose
  model \<^verbatim>\<open>User\<close>) and the session records (through express-session with a
  connect-mongo store). Object ids and session ids are opaque; they are modelled as
  natural numbers handed out by a counter.
\<close>

type_synonym oid = nat
type_synonym sid = nat

text \<open>
  A User document. \<open>uid\<close> is the document's \<^verbatim>\<open>_id\<close>; \<open>password\<close> is what the
  document stores in its \<^verbatim>\<open>password\<close> field. \<open>role\<close> is a string because the
  handler compares it with the string \<^verbatim>\<open>"admin"\<close>.
\<close>

record User =
  uid :: oid
  username :: string
  password :: string
  role :: string

text \<open>
  The value the sign-in handler stores under \<^verbatim>\<open>req.session.user\<close>:
  \<^verbatim>\<open>{ id: user._id, username: user.username }\<close>.
\<close>

record session_user =
  su_id :: oid
  su_username :: string

text \<open>
  The session payload. The sign-in handler is the only writer of the \<^verbatim>\<open>user\<close>
  property and always writes an object, so the property is either undefined (\<open>None\<close>)
  or an object (\<open>Some\<close>), and an object is truthy in JavaScript.
\<close>

record session =
  user :: "session_user option"

text \<open>What a promise of a collaborator rejects with, or what a statement throws.\<close>

datatype error = StoreError | TypeError

text \<open>The argument of \<^verbatim>\<open>res.send\<close>: a message object or the caught error.\<close>

datatype payload = Message string | Error error

record response =
  status :: nat
  sent :: payload

text \<open>
  The request as a handler sees it: \<^verbatim>\<open>req.session\<close> (\<open>None\<close> when the session
  middleware attached none), \<^verbatim>\<open>req.sessionID\<close>, the two fields the handlers read
  from \<^verbatim>\<open>req.body\<close>, and \<^verbatim>\<open>req.params.id\<close>. \<open>cookie\<close> is the session id the
  client sent, read by the session middleware only. The two body fields are strings, as
  sign-up and sign-in require them, and the path parameter is an object id already: what
  mongoose and bcrypt do with a missing field or a malformed id is not part of the
  repository.
\<close>

record request =
  cookie :: "sid option"
  session :: "session option"
  sessionID :: sid
  body_username :: string
  body_password :: string
  params_id :: oid

text \<open>
  The state outside the process. \<open>faults\<close> is the schedule of the collaborators'
  coming outcomes: each call on the Credential Store, and each destroy on the Session
  Store, consumes the head of the schedule and fails when it is \<open>True\<close>; an exhausted
  schedule means no further failure.
\<close>

record world =
  users :: "User list"
  next_id :: oid
  sessions :: "sid \<rightharpoonup> session"
  next_sid :: sid
  faults :: "bool list"

text \<open>
  bcrypt, the Password Hasher, is a dependency outside the repository; its two
  operations are parameters of the model, and every theorem holds for any pair of them
  (the salt of a hash is whatever \<open>hash\<close> does with it).
\<close>

record hasher =
  hash :: "string \<Rightarrow> string"
  compare :: "string \<Rightarrow> string \<Rightarrow> bool"

section \<open>Collaborators\<close>

definition next_fails :: "world \<Rightarrow> bool" where
  "next_fails w = (case faults w of [] \<Rightarrow> False | b # _ \<Rightarrow> b)"

definition advance :: "world \<Rightarrow> world" where
  "advance w = w\<lparr>faults := tl (faults w)\<rparr>"

text \<open>\<^verbatim>\<open>User.findOne({ username })\<close>: the first document with that username, or null.\<close>

definition findOne :: "string \<Rightarrow> world \<Rightarrow> (error + User option) \<times> world" where
  "findOne name w =
     (if next_fails w then (Inl StoreError, advance w)
      else (Inr (find (\<lambda>u. username u = name) (users w)), advance w))"

text \<open>\<^verbatim>\<open>User.findById(id)\<close>.\<close>

definition findById :: "oid \<Rightarrow> world \<Rightarrow> (error + User option) \<times> world" where
  "findById i w =
     (if next_fails w then (Inl StoreError, advance w)
      else (Inr (find (\<lambda>u. uid u = i) (users w)), advance w))"

text \<open>Deleting one document by its id: the first match goes, the rest stay in place.\<close>

fun deleteOne :: "oid \<Rightarrow> User list \<Rightarrow> User list" where
  "deleteOne i [] = []"
| "deleteOne i (u # us) = (if uid u = i then us else u # deleteOne i us)"

text \<open>\<^verbatim>\<open>user.remove()\<close> on a fetched document.\<close>

definition remove :: "User \<Rightarrow> world \<Rightarrow> (error + unit) \<times> world" where
  "remove u w =
     (if next_fails w then (Inl StoreError, advance w)
      else (Inr (), (advance w)\<lparr>users := deleteOne (uid u) (users w)\<rparr>))"

text \<open>
  Modelled from the spec: \<^verbatim>\<open>models/User.js\<close> is not among the sources, so the
  constructor and \<^verbatim>\<open>save\<close> of the User model follow the spec's section 4.2: the
  secret is hashed by the Password Hasher, and the role of a new User defaults to
  \<^verbatim>\<open>"standard"\<close>. The handler gives the constructor the plaintext, so the hashing
  is placed in \<open>save\<close>, which also assigns the id and inserts the document.
\<close>

definition new_User :: "string \<Rightarrow> string \<Rightarrow> User" where
  "new_User name pw = \<lparr>uid = 0, username = name, password = pw, role = ''standard''\<rparr>"

definition save :: "hasher \<Rightarrow> User \<Rightarrow> world \<Rightarrow> (error + User) \<times> world" where
  "save H u w =
     (if next_fails w then (Inl StoreError, advance w)
      else
        (let doc = u\<lparr>uid := next_id w, password := hash H (password u)\<rparr>
         in (Inr doc, (advance w)\<lparr>users := users w @ [doc], next_id := Suc (next_id w)\<rparr>)))"

text \<open>
  \<^verbatim>\<open>req.session.destroy(callback)\<close> of express-session: the record of this session id
  is deleted from the Session Store, and the callback receives the store's error, if any.
\<close>

definition destroy :: "sid \<Rightarrow> world \<Rightarrow> (error + unit) \<times> world" where
  "destroy i w =
     (if next_fails w then (Inl StoreError, advance w)
      else (Inr (), (advance w)\<lparr>sessions := (sessions w)(i := None)\<rparr>))"

section \<open>The middleware and the handlers\<close>

definition reply :: "nat \<Rightarrow> payload \<Rightarrow> response" where
  "reply code p = \<lparr>status = code, sent = p\<rparr>"

text \<open>What a middleware does: it calls \<^verbatim>\<open>next()\<close> or it sends a response.\<close>

datatype verdict = Next | Respond response

definition isAuthenticated :: "request \<Rightarrow> verdict" where
  "isAuthenticated req =
     (case session req of
        None \<Rightarrow> Respond (reply 401 (Message ''You must be logged in to access this''))
      | Some s \<Rightarrow>
          (case user s of
             None \<Rightarrow> Respond (reply 401 (Message ''You must be logged in to access this''))
           | Some _ \<Rightarrow> Next))"

text \<open>
  \<^verbatim>\<open>app.METHOD(path, isAuthenticated, handler)\<close>: the handler runs only when the
  middleware calls \<^verbatim>\<open>next()\<close>.
\<close>

definition guarded ::
  "(request \<Rightarrow> world \<Rightarrow> response \<times> world) \<Rightarrow> request \<Rightarrow> world \<Rightarrow> response \<times> world" where
  "guarded handler req w =
     (case isAuthenticated req of
        Next \<Rightarrow> handler req w
      | Respond r \<Rightarrow> (r, w))"

text \<open>\<^verbatim>\<open>POST /sign-up\<close>.\<close>

definition sign_up :: "hasher \<Rightarrow> request \<Rightarrow> world \<Rightarrow> response \<times> world" where
  "sign_up H req w =
     (case findOne (body_username req) w of
        (Inl e, w1) \<Rightarrow> (reply 400 (Error e), w1)
      | (Inr (Some existing), w1) \<Rightarrow> (reply 400 (Message ''Username already taken.''), w1)
      | (Inr None, w1) \<Rightarrow>
          (case save H (new_User (body_username req) (body_password req)) w1 of
             (Inl e, w2) \<Rightarrow> (reply 400 (Error e), w2)
           | (Inr _, w2) \<Rightarrow> (reply 201 (Message ''User registered successfully.''), w2)))"

text \<open>
  \<^verbatim>\<open>POST /sign-in\<close>. The second component of the result is \<^verbatim>\<open>req.session\<close>
  after the handler. Assigning to \<^verbatim>\<open>req.session.user\<close> when there is no session
  object throws inside the \<^verbatim>\<open>try\<close>.
\<close>

definition sign_in :: "hasher \<Rightarrow> request \<Rightarrow> world \<Rightarrow> response \<times> session option \<times> world" where
  "sign_in H req w =
     (case findOne (body_username req) w of
        (Inl e, w1) \<Rightarrow> (reply 500 (Error e), session req, w1)
      | (Inr None, w1) \<Rightarrow> (reply 401 (Message ''Authentication failed''), session req, w1)
      | (Inr (Some u), w1) \<Rightarrow>
          (if \<not> compare H (body_password req) (password u)
           then (reply 401 (Message ''Authentication failed''), session req, w1)
           else
             (case session req of
                None \<Rightarrow> (reply 500 (Error TypeError), None, w1)
              | Some s \<Rightarrow>
                  (reply 200 (Message ''Logged in successfully''),
                   Some (s\<lparr>user := Some \<lparr>su_id = uid u, su_username = username u\<rparr>\<rparr>), w1))))"

text \<open>
  \<^verbatim>\<open>POST /logout\<close>. \<^verbatim>\<open>destroy\<close> unsets \<^verbatim>\<open>req.session\<close> whatever the store
  answers; \<^verbatim>\<open>res.send\<close> without \<^verbatim>\<open>res.status\<close> answers 200.
\<close>

definition logout :: "request \<Rightarrow> world \<Rightarrow> response \<times> session option \<times> world" where
  "logout req w =
     (case session req of
        Some s \<Rightarrow>
          (case destroy (sessionID req) w of
             (Inl err, w1) \<Rightarrow>
               (reply 500 (Message ''Could not log out, please try again''), None, w1)
           | (Inr _, w1) \<Rightarrow> (reply 200 (Message ''Logout successful''), None, w1))
      | None \<Rightarrow> (reply 400 (Message ''You are not logged in''), None, w))"

text \<open>
  The handler of \<^verbatim>\<open>DELETE /user/:id\<close>. Reading \<^verbatim>\<open>req.session.user.id\<close> throws
  inside the \<^verbatim>\<open>try\<close> when the session or its user is missing.
\<close>

definition delete_user :: "request \<Rightarrow> world \<Rightarrow> response \<times> world" where
  "delete_user req w =
     (case session req of
        None \<Rightarrow> (reply 500 (Error TypeError), w)
      | Some s \<Rightarrow>
          (case user s of
             None \<Rightarrow> (reply 500 (Error TypeError), w)
           | Some su \<Rightarrow>
               (case findById (su_id su) w of
                  (Inl e, w1) \<Rightarrow> (reply 500 (Error e), w1)
                | (Inr None, w1) \<Rightarrow> (reply 401 (Message ''Unauthorized''), w1)
                | (Inr (Some admin), w1) \<Rightarrow>
                    (if role admin \<noteq> ''admin'' then (reply 401 (Message ''Unauthorized''), w1)
                     else
                       (case findById (params_id req) w1 of
                          (Inl e, w2) \<Rightarrow> (reply 500 (Error e), w2)
                        | (Inr None, w2) \<Rightarrow> (reply 404 (Message ''User not found''), w2)
                        | (Inr (Some u), w2) \<Rightarrow>
                            (case remove u w2 of
                               (Inl e, w3) \<Rightarrow> (reply 500 (Error e), w3)
                             | (Inr _, w3) \<Rightarrow>
                                 (reply 200 (Message ''User deleted successfully''), w3)))))))"

text \<open>\<^verbatim>\<open>app.delete("/user/:id", isAuthenticated, ...)\<close>.\<close>

definition delete_user_route :: "request \<Rightarrow> world \<Rightarrow> response \<times> world" where
  "delete_user_route = guarded delete_user"

text \<open>\<^verbatim>\<open>app.get("/is-authenticated", isAuthenticated, ...)\<close>.\<close>

definition is_authenticated_route :: "request \<Rightarrow> world \<Rightarrow> response \<times> world" where
  "is_authenticated_route = guarded (\<lambda>req w. (reply 200 (Message ''Authenticated''), w))"

section \<open>The session middleware around a handler\<close>

text \<open>
  express-session is a dependency outside the repository; it is modelled by what its
  configuration in \<^verbatim>\<open>server.js\<close> asks of it. A request whose cookie names a record of
  the Session Store gets that record as \<^verbatim>\<open>req.session\<close>; any other request gets a
  fresh, empty session under a fresh id. A record of the store is a live session: the
  store drops a record when its time to live has passed.
\<close>

definition generate :: "request \<Rightarrow> world \<Rightarrow> request \<times> world" where
  "generate req w =
     (req\<lparr>session := Some \<lparr>user = None\<rparr>, sessionID := next_sid w\<rparr>,
      w\<lparr>next_sid := Suc (next_sid w)\<rparr>)"

definition session_middleware :: "request \<Rightarrow> world \<Rightarrow> request \<times> world" where
  "session_middleware req w =
     (case cookie req of
        None \<Rightarrow> generate req w
      | Some c \<Rightarrow>
          (case sessions w c of
             None \<Rightarrow> generate req w
           | Some s \<Rightarrow> (req\<lparr>session := Some s, sessionID := c\<rparr>, w)))"

text \<open>
  When the response ends, the session still attached to the request is written to the
  store (\<^verbatim>\<open>saveUninitialized: true\<close> writes new sessions too); a destroyed session
  is not.
\<close>

definition end_response :: "sid \<Rightarrow> session option \<Rightarrow> world \<Rightarrow> world" where
  "end_response i so w =
     (case so of None \<Rightarrow> w | Some s \<Rightarrow> w\<lparr>sessions := (sessions w)(i \<mapsto> s)\<rparr>)"

datatype route = SignUp | SignIn | Logout | DeleteUser | IsAuthenticated

text \<open>
  One request through the application: the session middleware, the route, the end of the
  response. The result carries the response and the session id of the cookie the client
  holds afterwards.
\<close>

definition serve :: "hasher \<Rightarrow> route \<Rightarrow> request \<Rightarrow> world \<Rightarrow> (response \<times> sid) \<times> world" where
  "serve H rt req0 w0 =
     (case session_middleware req0 w0 of
        (req, w) \<Rightarrow>
          (case rt of
             SignUp \<Rightarrow>
               (case sign_up H req w of
                  (r, w') \<Rightarrow> ((r, sessionID req), end_response (sessionID req) (session req) w'))
           | SignIn \<Rightarrow>
               (case sign_in H req w of
                  (r, so, w') \<Rightarrow> ((r, sessionID req), end_response (sessionID req) so w'))
           | Logout \<Rightarrow>
               (case logout req w of
                  (r, so, w') \<Rightarrow> ((r, sessionID req), end_response (sessionID req) so w'))
           | DeleteUser \<Rightarrow>
               (case delete_user_route req w of
                  (r, w') \<Rightarrow> ((r, sessionID req), end_response (sessionID req) (session req) w'))
           | IsAuthenticated \<Rightarrow>
               (case is_authenticated_route req w of
                  (r, w') \<Rightarrow> ((r, sessionID req), end_response (sessionID req) (session req) w'))))"

section \<open>Notions of the specification\<close>

text \<open>The session's user reference of a request: \<^verbatim>\<open>req.session\<close>'s \<^verbatim>\<open>user\<close>, if any.\<close>

definition user_ref :: "request \<Rightarrow> session_user option" where
  "user_ref req = (case session req of None \<Rightarrow> None | Some s \<Rightarrow> user s)"

text \<open>No collaborator call that is still to come fails.\<close>

definition no_faults :: "world \<Rightarrow> bool" where
  "no_faults w = (True \<notin> set (faults w))"

text \<open>
  What MongoDB and the look-up before the insert maintain of the User collection: ids are
  unique and were handed out by the counter, usernames are unique.
\<close>

definition store_inv :: "world \<Rightarrow> bool" where
  "store_inv w =
     (distinct (map uid (users w)) \<and> distinct (map username (users w)) \<and>
      (\<forall>u\<in>set (users w). uid u < next_id w))"

section \<open>Concrete data for the examples\<close>

definition toy_hasher :: hasher where
  "toy_hasher = \<lparr>hash = (\<lambda>p. ''h:'' @ p), compare = (\<lambda>p h. h = ''h:'' @ p)\<rparr>"

definition request_of :: "sid option \<Rightarrow> string \<Rightarrow> string \<Rightarrow> oid \<Rightarrow> request" where
  "request_of c name pw i =
     \<lparr>cookie = c, session = None, sessionID = 0,
      body_username = name, body_password = pw, params_id = i\<rparr>"

definition root_user :: User where
  "root_user = \<lparr>uid = 0, username = ''root'', password = ''h:toor'', role = ''admin''\<rparr>"

definition alice_user :: User where
  "alice_user = \<lparr>uid = 1, username = ''alice'', password = ''h:pw1'', role = ''standard''\<rparr>"

definition office :: world where
  "office = \<lparr>users = [root_user, alice_user], next_id = 2,
             sessions = Map.empty, next_sid = 0, faults = []\<rparr>"

text \<open>A request under a session that holds the given user.\<close>

definition logged_in :: "session_user \<Rightarrow> request \<Rightarrow> request" where
  "logged_in su req = req\<lparr>session := Some \<lparr>user = Some su\<rparr>\<rparr>"

definition root_session :: session_user where
  "root_session = \<lparr>su_id = 0, su_username = ''root''\<rparr>"

definition alice_session :: session_user where
  "alice_session = \<lparr>su_id = 1, su_username = ''alice''\<rparr>"

text \<open>The worlds after alice has signed in, and after she has logged out again.\<close>

definition alice_signed_in :: world where
  "alice_signed_in = office\<lparr>sessions := [0 \<mapsto> \<lparr>user = Some alice_session\<rparr>], next_sid := 1\<rparr>"

definition alice_signed_out :: world where
  "alice_signed_out = office\<lparr>next_sid := 1\<rparr>"

text \<open>The worlds after root has signed in, and after root has deleted their own User.\<close>

definition root_signed_in :: world where
  "root_signed_in = office\<lparr>sessions := [0 \<mapsto> \<lparr>user = Some root_session\<rparr>], next_sid := 1\<rparr>"

definition root_gone :: world where
  "root_gone = root_signed_in\<lparr>users := [alice_user]\<rparr>"

section \<open>The Auth Guard\<close>

lemma isAuthenticated_Next:
  "(isAuthenticated req = Next) = (\<exists>s u. session req = Some s \<and> user s = Some u)"
  by (auto simp: isAuthenticated_def split: option.splits)

lemma isAuthenticated_cases:
  "isAuthenticated req = Next \<or>
   isAuthenticated req = Respond (reply 401 (Message ''You must be logged in to access this''))"
  by (simp add: isAuthenticated_def split: option.splits)

text \<open>
  C1. The guard lets a request through exactly when the request has a session and the
  session has a user. In every other case it answers 401 with the message
  "You must be logged in to access this", and a route composed behind the guard answers
  that response with the state untouched, whatever its handler is: the handler did not
  run. When the guard lets the request through, the route is its handler.
\<close>

theorem isAuthenticated_gate:
  "(isAuthenticated req = Next \<longleftrightarrow> (\<exists>s u. session req = Some s \<and> user s = Some u)) \<and>
   (\<not> (\<exists>s u. session req = Some s \<and> user s = Some u) \<longrightarrow>
      isAuthenticated req =
        Respond (reply 401 (Message ''You must be logged in to access this'')) \<and>
      guarded handler req w =
        (reply 401 (Message ''You must be logged in to access this''), w)) \<and>
   ((\<exists>s u. session req = Some s \<and> user s = Some u) \<longrightarrow>
      guarded handler req w = handler req w)"
proof -
  have a: "(isAuthenticated req = Next) = (\<exists>s u. session req = Some s \<and> user s = Some u)"
    by (rule isAuthenticated_Next)
  have b: "isAuthenticated req \<noteq> Next \<Longrightarrow>
      isAuthenticated req =
        Respond (reply 401 (Message ''You must be logged in to access this''))"
    using isAuthenticated_cases [of req] by blast
  show ?thesis
    using a b by (auto simp: guarded_def)
qed

theorem isAuthenticated_gate_witness:
  "isAuthenticated
     ((request_of None [] [] 0)\<lparr>session := Some \<lparr>user = Some \<lparr>su_id = 0, su_username = ''root''\<rparr>\<rparr>\<rparr>)
     = Next \<and>
   guarded delete_user ((request_of None [] [] 1)\<lparr>session := Some \<lparr>user = None\<rparr>\<rparr>) office
     = (reply 401 (Message ''You must be logged in to access this''), office) \<and>
   guarded delete_user (request_of None [] [] 1) office
     = (reply 401 (Message ''You must be logged in to access this''), office)"
  using
    isAuthenticated_gate [of "(request_of None [] [] 0)\<lparr>session :=
        Some \<lparr>user = Some \<lparr>su_id = 0, su_username = ''root''\<rparr>\<rparr>\<rparr>" delete_user office]
    isAuthenticated_gate [of "(request_of None [] [] 1)\<lparr>session := Some \<lparr>user = None\<rparr>\<rparr>"
        delete_user office]
    isAuthenticated_gate [of "request_of None [] [] 1" delete_user office]
  by (simp add: request_of_def)

text \<open>
  C10. The guard's outcome depends on the session's user reference only: two requests
  whose references are both present, or both missing (no session, or a session without
  a user), get the same outcome, whatever else the requests hold.
\<close>

theorem isAuthenticated_depends_on_user_ref:
  assumes "(user_ref r1 = None) = (user_ref r2 = None)"
  shows "isAuthenticated r1 = isAuthenticated r2"
  using assms
  by (auto simp: isAuthenticated_def user_ref_def split: option.splits)

theorem isAuthenticated_depends_on_user_ref_witness:
  "(user_ref (request_of None ''alice'' ''pw1'' 0) = None) =
     (user_ref ((request_of (Some 3) ''bob'' [] 7)\<lparr>session := Some \<lparr>user = None\<rparr>\<rparr>) = None) \<and>
   isAuthenticated (request_of None ''alice'' ''pw1'' 0) =
     isAuthenticated ((request_of (Some 3) ''bob'' [] 7)\<lparr>session := Some \<lparr>user = None\<rparr>\<rparr>)"
proof -
  have h: "(user_ref (request_of None ''alice'' ''pw1'' 0) = None) =
     (user_ref ((request_of (Some 3) ''bob'' [] 7)\<lparr>session := Some \<lparr>user = None\<rparr>\<rparr>) = None)"
    by (simp add: user_ref_def request_of_def)
  show ?thesis
    using h isAuthenticated_depends_on_user_ref [OF h] by simp
qed

section \<open>Facts about the collaborators\<close>

lemma advance_fields [simp]:
  "users (advance w) = users w"
  "next_id (advance w) = next_id w"
  "sessions (advance w) = sessions w"
  "next_sid (advance w) = next_sid w"
  by (simp_all add: advance_def)

lemma no_faults_next_fails: "no_faults w \<Longrightarrow> \<not> next_fails w"
  by (cases "faults w") (auto simp: no_faults_def next_fails_def)

lemma no_faults_advance: "no_faults w \<Longrightarrow> no_faults (advance w)"
  by (cases "faults w") (auto simp: no_faults_def advance_def)

lemma find_username_None:
  "(find (\<lambda>u. username u = name) us = None) = (\<forall>u\<in>set us. username u \<noteq> name)"
  by (auto simp: find_None_iff)

lemma find_uid_Some: "find (\<lambda>u. uid u = i) us = Some t \<Longrightarrow> uid t = i \<and> t \<in> set us"
  by (induction us) (auto split: if_splits)

text \<open>
  Deleting by the id of a document that a lookup by id returned takes exactly that
  document out, at the place of the first match.
\<close>

lemma deleteOne_found:
  "find (\<lambda>u. uid u = i) us = Some t \<Longrightarrow>
   \<exists>xs ys. us = xs @ t # ys \<and> deleteOne i us = xs @ ys \<and> (\<forall>x\<in>set xs. uid x \<noteq> i)"
proof (induction us)
  case Nil
  then show ?case by simp
next
  case (Cons u us)
  show ?case
  proof (cases "uid u = i")
    case True
    with Cons.prems have "t = u" by simp
    with True have "u # us = [] @ t # us \<and> deleteOne i (u # us) = [] @ us \<and>
        (\<forall>x\<in>set []. uid x \<noteq> i)"
      by simp
    then show ?thesis by blast
  next
    case False
    with Cons.prems have "find (\<lambda>u. uid u = i) us = Some t" by simp
    from Cons.IH [OF this] obtain xs ys where
      h: "us = xs @ t # ys" "deleteOne i us = xs @ ys" "\<forall>x\<in>set xs. uid x \<noteq> i"
      by blast
    from h False have "u # us = (u # xs) @ t # ys \<and> deleteOne i (u # us) = (u # xs) @ ys \<and>
        (\<forall>x\<in>set (u # xs). uid x \<noteq> i)"
      by simp
    then show ?thesis by blast
  qed
qed

lemma deleteOne_others:
  "filter (\<lambda>u. uid u \<noteq> i) (deleteOne i us) = filter (\<lambda>u. uid u \<noteq> i) us"
  by (induction us) auto

lemma deleteOne_gone:
  "distinct (map uid us) \<Longrightarrow> find (\<lambda>u. uid u = i) (deleteOne i us) = None"
proof (induction us)
  case Nil
  then show ?case by simp
next
  case (Cons u us)
  show ?case
  proof (cases "uid u = i")
    case True
    from Cons.prems have "uid u \<notin> uid ` set us" by simp
    with True have "\<forall>x\<in>set us. uid x \<noteq> i" by blast
    with True show ?thesis by (simp add: find_None_iff)
  next
    case False
    with Cons show ?thesis by simp
  qed
qed

lemma deleteOne_subset: "set (deleteOne i us) \<subseteq> set us"
  by (induction us) auto

lemma distinct_map_Cons_neq: "distinct (map f (u # us)) \<Longrightarrow> x \<in> set us \<Longrightarrow> f x \<noteq> f u"
proof
  assume d: "distinct (map f (u # us))" and x: "x \<in> set us" and e: "f x = f u"
  from x have "f x \<in> f ` set us" by (rule imageI)
  with e have "f u \<in> f ` set us" by simp
  with d show False by simp
qed

lemma deleteOne_gone_by_name:
  assumes "distinct (map username us)" and "find (\<lambda>u. uid u = i) us = Some t"
  shows "find (\<lambda>u. username u = username t) (deleteOne i us) = None"
  using assms
proof (induction us)
  case Nil
  then show ?case by simp
next
  case (Cons u us)
  show ?case
  proof (cases "uid u = i")
    case True
    with Cons.prems(2) have tu: "u = t" by simp
    have "\<forall>x\<in>set us. username x \<noteq> username u"
      using distinct_map_Cons_neq [OF Cons.prems(1)] by blast
    then have "find (\<lambda>x. username x = username u) us = None"
      by (simp add: find_None_iff)
    with True tu show ?thesis by simp
  next
    case False
    with Cons.prems(2) have f: "find (\<lambda>u. uid u = i) us = Some t" by simp
    from Cons.prems(1) have d: "distinct (map username us)" by simp
    from find_uid_Some [OF f] have "t \<in> set us" by (rule conjunct2)
    from distinct_map_Cons_neq [OF Cons.prems(1) this]
    have "username u \<noteq> username t" by simp
    with False Cons.IH [OF d f] show ?thesis by simp
  qed
qed

section \<open>Sign-up\<close>

lemma sign_up_taken:
  assumes "\<not> next_fails w"
    and "find (\<lambda>u. username u = body_username req) (users w) = Some e"
  shows "sign_up H req w = (reply 400 (Message ''Username already taken.''), advance w)"
  using assms by (simp add: sign_up_def findOne_def)

lemma sign_up_created:
  assumes "\<not> next_fails w" and "\<not> next_fails (advance w)"
    and "find (\<lambda>u. username u = body_username req) (users w) = None"
  shows "sign_up H req w =
     (reply 201 (Message ''User registered successfully.''),
      (advance (advance w))\<lparr>users := users w @
          [\<lparr>uid = next_id w, username = body_username req,
            password = hash H (body_password req), role = ''standard''\<rparr>],
        next_id := Suc (next_id w)\<rparr>)"
  using assms by (simp add: sign_up_def findOne_def save_def new_User_def Let_def)

text \<open>
  C2. Sign-up, when the lookup and the insert on the Credential Store do not fail. If a
  User with the given username exists, the answer is 400 "Username already taken." and
  the collection of Users is unchanged. Otherwise the answer is 201 with the message
  "User registered successfully.", and the collection has gained, at its end, one User
  with the given username, the hash of the given password and the role "standard".
\<close>

theorem sign_up_spec:
  assumes "no_faults w"
  shows
    "((\<exists>u\<in>set (users w). username u = body_username req) \<longrightarrow>
        fst (sign_up H req w) = reply 400 (Message ''Username already taken.'') \<and>
        users (snd (sign_up H req w)) = users w) \<and>
     (\<not> (\<exists>u\<in>set (users w). username u = body_username req) \<longrightarrow>
        fst (sign_up H req w) = reply 201 (Message ''User registered successfully.'') \<and>
        users (snd (sign_up H req w)) =
          users w @ [\<lparr>uid = next_id w, username = body_username req,
                       password = hash H (body_password req), role = ''standard''\<rparr>])"
proof -
  from assms have f1: "\<not> next_fails w" and f2: "\<not> next_fails (advance w)"
    by (simp_all add: no_faults_next_fails no_faults_advance)
  show ?thesis
  proof (cases "find (\<lambda>u. username u = body_username req) (users w)")
    case None
    then have "\<not> (\<exists>u\<in>set (users w). username u = body_username req)"
      by (simp add: find_username_None)
    with sign_up_created [OF f1 f2 None, of H] show ?thesis by simp
  next
    case (Some e)
    then have "\<exists>u\<in>set (users w). username u = body_username req"
      using find_username_None [of "body_username req" "users w"] by auto
    with sign_up_taken [OF f1 Some, of H] show ?thesis by simp
  qed
qed

theorem sign_up_spec_witness:
  "no_faults office \<and>
   fst (sign_up toy_hasher (request_of None ''alice'' ''pw2'' 0) office) =
     reply 400 (Message ''Username already taken.'') \<and>
   users (snd (sign_up toy_hasher (request_of None ''alice'' ''pw2'' 0) office)) = users office \<and>
   fst (sign_up toy_hasher (request_of None ''bob'' ''pw3'' 0) office) =
     reply 201 (Message ''User registered successfully.'') \<and>
   users (snd (sign_up toy_hasher (request_of None ''bob'' ''pw3'' 0) office)) =
     [root_user, alice_user,
      \<lparr>uid = 2, username = ''bob'', password = ''h:pw3'', role = ''standard''\<rparr>]"
proof -
  have h: "no_faults office"
    by (simp add: no_faults_def office_def)
  show ?thesis
    using h sign_up_spec [OF h, of "request_of None ''alice'' ''pw2'' 0" toy_hasher]
      sign_up_spec [OF h, of "request_of None ''bob'' ''pw3'' 0" toy_hasher]
    by (simp add: office_def request_of_def root_user_def alice_user_def toy_hasher_def)
qed

section \<open>Sign-in\<close>

lemma sign_in_unknown:
  assumes "\<not> next_fails w"
    and "find (\<lambda>u. username u = body_username req) (users w) = None"
  shows "sign_in H req w =
     (reply 401 (Message ''Authentication failed''), session req, advance w)"
  using assms by (simp add: sign_in_def findOne_def)

lemma sign_in_wrong_password:
  assumes "\<not> next_fails w"
    and "find (\<lambda>u. username u = body_username req) (users w) = Some u"
    and "\<not> compare H (body_password req) (password u)"
  shows "sign_in H req w =
     (reply 401 (Message ''Authentication failed''), session req, advance w)"
  using assms by (simp add: sign_in_def findOne_def)

text \<open>
  C3. Two sign-in calls whose lookup on the Credential Store does not fail: one with a
  username that no User has, one with the username of a User whose stored hash the given
  password does not verify against. Both answer 401 "Authentication failed", so the two
  responses are equal.
\<close>

theorem sign_in_failures_indistinguishable:
  assumes "\<not> next_fails w1" and "\<not> next_fails w2"
    and "\<forall>u\<in>set (users w1). username u \<noteq> body_username r1"
    and "find (\<lambda>u. username u = body_username r2) (users w2) = Some u"
    and "\<not> compare H (body_password r2) (password u)"
  shows "fst (sign_in H r1 w1) = reply 401 (Message ''Authentication failed'') \<and>
         fst (sign_in H r2 w2) = reply 401 (Message ''Authentication failed'') \<and>
         fst (sign_in H r1 w1) = fst (sign_in H r2 w2)"
proof -
  from assms(3) have "find (\<lambda>u. username u = body_username r1) (users w1) = None"
    by (simp add: find_username_None)
  from sign_in_unknown [OF assms(1) this, of H]
    sign_in_wrong_password [OF assms(2) assms(4) assms(5)]
  show ?thesis by simp
qed

theorem sign_in_failures_indistinguishable_witness:
  "\<not> next_fails office \<and>
   body_username (request_of None ''mallory'' ''pw1'' 0) \<notin> set (map username (users office)) \<and>
   find (\<lambda>u. username u = body_username (request_of None ''alice'' ''wrong'' 0)) (users office)
     = Some alice_user \<and>
   \<not> compare toy_hasher (body_password (request_of None ''alice'' ''wrong'' 0)) (password alice_user) \<and>
   fst (sign_in toy_hasher (request_of None ''mallory'' ''pw1'' 0) office) =
     reply 401 (Message ''Authentication failed'') \<and>
   fst (sign_in toy_hasher (request_of None ''alice'' ''wrong'' 0) office) =
     reply 401 (Message ''Authentication failed'')"
proof -
  have a: "\<not> next_fails office"
    by (simp add: next_fails_def office_def)
  have b: "\<forall>u\<in>set (users office).
      username u \<noteq> body_username (request_of None ''mallory'' ''pw1'' 0)"
    by (simp add: office_def request_of_def root_user_def alice_user_def)
  have c: "find (\<lambda>u. username u = body_username (request_of None ''alice'' ''wrong'' 0))
      (users office) = Some alice_user"
    by (simp add: office_def request_of_def root_user_def alice_user_def)
  have d: "\<not> compare toy_hasher (body_password (request_of None ''alice'' ''wrong'' 0))
      (password alice_user)"
    by (simp add: toy_hasher_def request_of_def alice_user_def)
  have b': "body_username (request_of None ''mallory'' ''pw1'' 0)
      \<notin> set (map username (users office))"
    by (simp add: office_def request_of_def root_user_def alice_user_def)
  from sign_in_failures_indistinguishable [OF a a b c d] a b' c d
  show ?thesis by simp
qed

section \<open>Logout\<close>

lemma logout_no_session:
  "session req = None \<Longrightarrow>
   logout req w = (reply 400 (Message ''You are not logged in''), None, w)"
  by (simp add: logout_def)

lemma logout_destroy_fails:
  "session req = Some s \<Longrightarrow> next_fails w \<Longrightarrow>
   logout req w =
     (reply 500 (Message ''Could not log out, please try again''), None, advance w)"
  by (simp add: logout_def destroy_def)

lemma logout_destroyed:
  "session req = Some s \<Longrightarrow> \<not> next_fails w \<Longrightarrow>
   logout req w =
     (reply 200 (Message ''Logout successful''), None,
      (advance w)\<lparr>sessions := (sessions w)(sessionID req := None)\<rparr>)"
  by (simp add: logout_def destroy_def)

text \<open>
  The three branches of the handler: no session object, a destroy that fails, a destroy
  that succeeds. In the last case the store has no record under the request's session id
  any more, and every other record is as it was.
\<close>

lemma logout_branches:
  "(session req = None \<longrightarrow>
      logout req w = (reply 400 (Message ''You are not logged in''), None, w)) \<and>
   (session req \<noteq> None \<and> next_fails w \<longrightarrow>
      fst (logout req w) = reply 500 (Message ''Could not log out, please try again'') \<and>
      sessions (snd (snd (logout req w))) = sessions w) \<and>
   (session req \<noteq> None \<and> \<not> next_fails w \<longrightarrow>
      fst (logout req w) = reply 200 (Message ''Logout successful'') \<and>
      sessions (snd (snd (logout req w))) (sessionID req) = None \<and>
      (\<forall>j. j \<noteq> sessionID req \<longrightarrow> sessions (snd (snd (logout req w))) j = sessions w j))"
proof (cases "session req")
  case None
  then show ?thesis by (simp add: logout_no_session)
next
  case (Some s)
  show ?thesis
  proof (cases "next_fails w")
    case True
    with Some logout_destroy_fails [OF Some True] show ?thesis by simp
  next
    case False
    with Some logout_destroyed [OF Some False] show ?thesis by simp
  qed
qed

text \<open>
  The handler tests \<^verbatim>\<open>req.session\<close>, and the session middleware attaches a session
  object to every request. So behind the middleware the 400 branch is never taken:
  whoever asks, logged in or not, the route answers 200 or 500.
\<close>

lemma serve_logout_200_or_500:
  "status (fst (fst (serve H Logout q w))) = 200 \<or> status (fst (fst (serve H Logout q w))) = 500"
proof -
  obtain req w1 where m: "session_middleware q w = (req, w1)"
    by (cases "session_middleware q w")
  have "\<exists>s. session (fst (session_middleware q w)) = Some s"
    by (simp add: session_middleware_def generate_def split: option.splits)
  with m obtain s where s: "session req = Some s"
    by auto
  show ?thesis
  proof (cases "next_fails w1")
    case True
    with m logout_destroy_fails [OF s True] show ?thesis
      by (simp add: serve_def reply_def)
  next
    case False
    with m logout_destroyed [OF s False] show ?thesis
      by (simp add: serve_def reply_def)
  qed
qed

text \<open>
  C4. A requester who is not logged in must be answered 400 "You are not logged in".
  The handler does not do so. A request without a cookie reaches it with the fresh
  session that the middleware has attached, a session without a user, which the guard
  \<open>isAuthenticated\<close> refuses with 401; the logout handler tests the session object alone,
  destroys the fresh session and answers 200 "Logout successful".
\<close>

theorem logout_not_logged_in_answers_200:
  "user_ref (fst (session_middleware (request_of None [] [] 0) office)) = None \<and>
   isAuthenticated (fst (session_middleware (request_of None [] [] 0) office)) =
     Respond (reply 401 (Message ''You must be logged in to access this'')) \<and>
   fst (fst (serve toy_hasher Logout (request_of None [] [] 0) office)) =
     reply 200 (Message ''Logout successful'') \<and>
   status (fst (fst (serve toy_hasher Logout (request_of None [] [] 0) office))) \<noteq> 400"
  by (simp add: user_ref_def isAuthenticated_def serve_def session_middleware_def generate_def
      logout_def destroy_def next_fails_def advance_def end_response_def request_of_def
      office_def reply_def)

section \<open>Privileged delete\<close>

text \<open>The handler behind the guard, branch by branch, for a request that has passed it.\<close>

lemma delete_user_eval:
  assumes "session req = Some s" and "user s = Some su"
  shows "delete_user req w =
    (if next_fails w then (reply 500 (Error StoreError), advance w)
     else
       (case find (\<lambda>u. uid u = su_id su) (users w) of
          None \<Rightarrow> (reply 401 (Message ''Unauthorized''), advance w)
        | Some a \<Rightarrow>
            if role a \<noteq> ''admin'' then (reply 401 (Message ''Unauthorized''), advance w)
            else if next_fails (advance w)
              then (reply 500 (Error StoreError), advance (advance w))
            else
              (case find (\<lambda>u. uid u = params_id req) (users w) of
                 None \<Rightarrow> (reply 404 (Message ''User not found''), advance (advance w))
               | Some t \<Rightarrow>
                   if next_fails (advance (advance w))
                   then (reply 500 (Error StoreError), advance (advance (advance w)))
                   else (reply 200 (Message ''User deleted successfully''),
                         (advance (advance (advance w)))
                           \<lparr>users := deleteOne (uid t) (users w)\<rparr>))))"
  using assms
  by (simp add: delete_user_def findById_def remove_def split: option.splits)

lemma delete_user_route_authenticated:
  "session req = Some s \<Longrightarrow> user s = Some su \<Longrightarrow> delete_user_route req w = delete_user req w"
  by (simp add: delete_user_route_def guarded_def isAuthenticated_def)

lemma delete_user_route_denied:
  "isAuthenticated req \<noteq> Next \<Longrightarrow>
   delete_user_route req w = (reply 401 (Message ''You must be logged in to access this''), w)"
  using isAuthenticated_cases [of req]
  by (auto simp: delete_user_route_def guarded_def)

text \<open>
  Every call of the route ends in one of two ways: a 401, 404 or 500 with the Users
  untouched, or the 200 with the first User of the target id deleted.
\<close>

lemma delete_user_route_outcomes:
  "(status (fst (delete_user_route req w)) \<in> {401, 404, 500} \<and>
      users (snd (delete_user_route req w)) = users w) \<or>
   (fst (delete_user_route req w) = reply 200 (Message ''User deleted successfully'') \<and>
      (\<exists>t. find (\<lambda>u. uid u = params_id req) (users w) = Some t) \<and>
      users (snd (delete_user_route req w)) = deleteOne (params_id req) (users w))"
proof (cases "isAuthenticated req = Next")
  case False
  then show ?thesis by (simp add: delete_user_route_denied reply_def)
next
  case True
  then obtain s su where s: "session req = Some s" and su: "user s = Some su"
    by (auto simp: isAuthenticated_Next)
  show ?thesis
  proof (cases "find (\<lambda>u. uid u = params_id req) (users w)")
    case None
    then show ?thesis
      by (simp add: delete_user_route_authenticated [OF s su] delete_user_eval [OF s su]
          reply_def split: option.splits)
  next
    case (Some t)
    from find_uid_Some [OF Some] have "uid t = params_id req" by (rule conjunct1)
    with Some show ?thesis
      by (simp add: delete_user_route_authenticated [OF s su] delete_user_eval [OF s su]
          reply_def split: option.splits)
  qed
qed

lemma delete_user_calm:
  assumes "no_faults w" and "session req = Some s" and "user s = Some su"
  shows "delete_user_route req w =
    (case find (\<lambda>u. uid u = su_id su) (users w) of
       None \<Rightarrow> (reply 401 (Message ''Unauthorized''), advance w)
     | Some a \<Rightarrow>
         if role a \<noteq> ''admin'' then (reply 401 (Message ''Unauthorized''), advance w)
         else
           (case find (\<lambda>u. uid u = params_id req) (users w) of
              None \<Rightarrow> (reply 404 (Message ''User not found''), advance (advance w))
            | Some t \<Rightarrow>
                (reply 200 (Message ''User deleted successfully''),
                 (advance (advance (advance w)))\<lparr>users := deleteOne (uid t) (users w)\<rparr>)))"
proof -
  from assms(1) have "\<not> next_fails w" and "\<not> next_fails (advance w)"
    and "\<not> next_fails (advance (advance w))"
    by (simp_all add: no_faults_next_fails no_faults_advance)
  then show ?thesis
    by (simp add: delete_user_route_authenticated [OF assms(2) assms(3)]
        delete_user_eval [OF assms(2) assms(3)] split: option.splits)
qed

text \<open>
  C5. A deleteUser call that has passed the guard, when the calls on the Credential Store
  do not fail. If no User has the id of the session's user, or that User's role is not
  "admin", the answer is 401 "Unauthorized" whatever the target id is, and no User is
  removed. If the actor is an admin and no User has the target id, the answer is 404
  "User not found". If the actor is an admin and a User has the target id, the answer is
  200 "User deleted successfully", that User is deleted, and afterwards a lookup by the
  target id finds nothing (ids being unique), nor does a lookup by the target's username
  (usernames being unique).
\<close>

theorem delete_user_spec:
  assumes "no_faults w" and "session req = Some s" and "user s = Some su"
  shows
    "((find (\<lambda>u. uid u = su_id su) (users w) = None \<or>
       (\<exists>a. find (\<lambda>u. uid u = su_id su) (users w) = Some a \<and> role a \<noteq> ''admin'')) \<longrightarrow>
        fst (delete_user_route req w) = reply 401 (Message ''Unauthorized'') \<and>
        users (snd (delete_user_route req w)) = users w) \<and>
     ((\<exists>a. find (\<lambda>u. uid u = su_id su) (users w) = Some a \<and> role a = ''admin'') \<and>
       find (\<lambda>u. uid u = params_id req) (users w) = None \<longrightarrow>
        fst (delete_user_route req w) = reply 404 (Message ''User not found'') \<and>
        users (snd (delete_user_route req w)) = users w) \<and>
     (\<forall>t. (\<exists>a. find (\<lambda>u. uid u = su_id su) (users w) = Some a \<and> role a = ''admin'') \<and>
       find (\<lambda>u. uid u = params_id req) (users w) = Some t \<longrightarrow>
        fst (delete_user_route req w) = reply 200 (Message ''User deleted successfully'') \<and>
        users (snd (delete_user_route req w)) = deleteOne (params_id req) (users w) \<and>
        (distinct (map uid (users w)) \<longrightarrow>
           find (\<lambda>u. uid u = params_id req) (users (snd (delete_user_route req w))) = None) \<and>
        (distinct (map username (users w)) \<longrightarrow>
           find (\<lambda>u. username u = username t) (users (snd (delete_user_route req w))) = None))"
proof -
  note calm = delete_user_calm [OF assms]
  have unauthorized:
    "find (\<lambda>u. uid u = su_id su) (users w) = None \<or>
       (\<exists>a. find (\<lambda>u. uid u = su_id su) (users w) = Some a \<and> role a \<noteq> ''admin'') \<Longrightarrow>
     fst (delete_user_route req w) = reply 401 (Message ''Unauthorized'') \<and>
     users (snd (delete_user_route req w)) = users w"
    using calm by auto
  have not_found:
    "(\<exists>a. find (\<lambda>u. uid u = su_id su) (users w) = Some a \<and> role a = ''admin'') \<Longrightarrow>
     find (\<lambda>u. uid u = params_id req) (users w) = None \<Longrightarrow>
     fst (delete_user_route req w) = reply 404 (Message ''User not found'') \<and>
     users (snd (delete_user_route req w)) = users w"
    using calm by auto
  have deleted:
    "fst (delete_user_route req w) = reply 200 (Message ''User deleted successfully'') \<and>
     users (snd (delete_user_route req w)) = deleteOne (params_id req) (users w) \<and>
     (distinct (map uid (users w)) \<longrightarrow>
        find (\<lambda>u. uid u = params_id req) (users (snd (delete_user_route req w))) = None) \<and>
     (distinct (map username (users w)) \<longrightarrow>
        find (\<lambda>u. username u = username t) (users (snd (delete_user_route req w))) = None)"
    if a: "\<exists>a. find (\<lambda>u. uid u = su_id su) (users w) = Some a \<and> role a = ''admin''"
      and t: "find (\<lambda>u. uid u = params_id req) (users w) = Some t" for t
  proof -
    from find_uid_Some [OF t] have i: "uid t = params_id req" by (rule conjunct1)
    from a t i calm have r:
      "delete_user_route req w =
        (reply 200 (Message ''User deleted successfully''),
         (advance (advance (advance w)))\<lparr>users := deleteOne (params_id req) (users w)\<rparr>)"
      by auto
    from r show ?thesis
      by (simp add: deleteOne_gone deleteOne_gone_by_name [OF _ t])
  qed
  from unauthorized not_found deleted show ?thesis by blast
qed

theorem delete_user_spec_witness:
  "no_faults office \<and>
   fst (delete_user_route (logged_in alice_session (request_of None [] [] 0)) office) =
     reply 401 (Message ''Unauthorized'') \<and>
   fst (delete_user_route (logged_in alice_session (request_of None [] [] 9)) office) =
     reply 401 (Message ''Unauthorized'') \<and>
   fst (delete_user_route (logged_in root_session (request_of None [] [] 9)) office) =
     reply 404 (Message ''User not found'') \<and>
   fst (delete_user_route (logged_in root_session (request_of None [] [] 1)) office) =
     reply 200 (Message ''User deleted successfully'') \<and>
   users (snd (delete_user_route (logged_in root_session (request_of None [] [] 1)) office)) =
     [root_user] \<and>
   find (\<lambda>u. uid u = 1)
     (users (snd (delete_user_route (logged_in root_session (request_of None [] [] 1)) office)))
     = None"
proof -
  have h: "no_faults office"
    by (simp add: no_faults_def office_def)
  have s: "session (logged_in su (request_of None [] [] i)) = Some \<lparr>user = Some su\<rparr>" for su i
    by (simp add: logged_in_def request_of_def)
  have u: "user \<lparr>user = Some su\<rparr> = Some su" for su
    by simp
  have p: "params_id (logged_in su (request_of None [] [] i)) = i" for su i
    by (simp add: logged_in_def request_of_def)
  have fa: "find (\<lambda>u. uid u = su_id alice_session) (users office) = Some alice_user"
    and fr: "find (\<lambda>u. uid u = su_id root_session) (users office) = Some root_user"
    and f9: "find (\<lambda>u. uid u = 9) (users office) = None"
    and f1: "find (\<lambda>u. uid u = 1) (users office) = Some alice_user"
    and ra: "role alice_user \<noteq> ''admin''" and rr: "role root_user = ''admin''"
    and d: "distinct (map uid (users office))"
    and del: "deleteOne 1 (users office) = [root_user]"
    by (simp_all add: office_def root_user_def alice_user_def root_session_def
        alice_session_def)
  from delete_user_spec [OF h s u, of alice_session 0] fa ra
  have c1: "fst (delete_user_route (logged_in alice_session (request_of None [] [] 0)) office) =
     reply 401 (Message ''Unauthorized'')"
    by simp
  from delete_user_spec [OF h s u, of alice_session 9] fa ra
  have c2: "fst (delete_user_route (logged_in alice_session (request_of None [] [] 9)) office) =
     reply 401 (Message ''Unauthorized'')"
    by simp
  from delete_user_spec [OF h s u, of root_session 9] fr rr f9
  have c3: "fst (delete_user_route (logged_in root_session (request_of None [] [] 9)) office) =
     reply 404 (Message ''User not found'')"
    by (simp add: p)
  from delete_user_spec [OF h s u, of root_session 1] fr rr f1 d del
  have c4: "fst (delete_user_route (logged_in root_session (request_of None [] [] 1)) office) =
     reply 200 (Message ''User deleted successfully'') \<and>
   users (snd (delete_user_route (logged_in root_session (request_of None [] [] 1)) office)) =
     [root_user] \<and>
   find (\<lambda>u. uid u = 1)
     (users (snd (delete_user_route (logged_in root_session (request_of None [] [] 1)) office)))
     = None"
    by (simp add: p root_user_def)
  from h c1 c2 c3 c4 show ?thesis by blast
qed

text \<open>
  C8. Every deleteUser call, whatever the stores answer, answers 200, 401, 404 or 500.
  With 200, exactly one User is gone, and it has the target id: the collection was
  \<open>xs @ t # ys\<close> and is \<open>xs @ ys\<close>. With any other status the collection is as it
  was. In every case the Users whose id is not the target id are the same as before, in
  the same order.
\<close>

theorem delete_user_frame:
  "status (fst (delete_user_route req w)) \<in> {200, 401, 404, 500} \<and>
   (status (fst (delete_user_route req w)) = 200 \<longrightarrow>
      (\<exists>xs t ys. users w = xs @ t # ys \<and> uid t = params_id req \<and>
         users (snd (delete_user_route req w)) = xs @ ys)) \<and>
   (status (fst (delete_user_route req w)) \<noteq> 200 \<longrightarrow>
      users (snd (delete_user_route req w)) = users w) \<and>
   filter (\<lambda>u. uid u \<noteq> params_id req) (users (snd (delete_user_route req w))) =
     filter (\<lambda>u. uid u \<noteq> params_id req) (users w)"
proof -
  from delete_user_route_outcomes [of req w] show ?thesis
  proof
    assume kept: "status (fst (delete_user_route req w)) \<in> {401, 404, 500} \<and>
      users (snd (delete_user_route req w)) = users w"
    then have "status (fst (delete_user_route req w)) \<noteq> 200" by auto
    with kept show ?thesis by auto
  next
    assume gone: "fst (delete_user_route req w) = reply 200 (Message ''User deleted successfully'') \<and>
      (\<exists>t. find (\<lambda>u. uid u = params_id req) (users w) = Some t) \<and>
      users (snd (delete_user_route req w)) = deleteOne (params_id req) (users w)"
    then obtain t where t: "find (\<lambda>u. uid u = params_id req) (users w) = Some t"
      by blast
    from find_uid_Some [OF t] have i: "uid t = params_id req" by (rule conjunct1)
    from deleteOne_found [OF t] obtain xs ys where
      split: "users w = xs @ t # ys" "deleteOne (params_id req) (users w) = xs @ ys"
      by blast
    from gone have st: "status (fst (delete_user_route req w)) = 200"
      by (simp add: reply_def)
    from gone split i have
      "\<exists>xs t ys. users w = xs @ t # ys \<and> uid t = params_id req \<and>
         users (snd (delete_user_route req w)) = xs @ ys"
      by auto
    moreover from gone have
      "filter (\<lambda>u. uid u \<noteq> params_id req) (users (snd (delete_user_route req w))) =
       filter (\<lambda>u. uid u \<noteq> params_id req) (users w)"
      by (simp add: deleteOne_others)
    ultimately show ?thesis using st by simp
  qed
qed

theorem delete_user_frame_witness:
  "status (fst (delete_user_route (logged_in root_session (request_of None [] [] 1)) office)) = 200 \<and>
   (\<exists>xs t ys. users office = xs @ t # ys \<and> uid t = 1 \<and>
      users (snd (delete_user_route (logged_in root_session (request_of None [] [] 1)) office)) =
        xs @ ys) \<and>
   status (fst (delete_user_route (logged_in root_session (request_of None [] [] 1))
      (office\<lparr>faults := [False, False, True]\<rparr>))) = 500 \<and>
   users (snd (delete_user_route (logged_in root_session (request_of None [] [] 1))
      (office\<lparr>faults := [False, False, True]\<rparr>))) = [root_user, alice_user]"
proof -
  have p: "params_id (logged_in su (request_of None [] [] i)) = i" for su i
    by (simp add: logged_in_def request_of_def)
  have a: "status (fst (delete_user_route (logged_in root_session (request_of None [] [] 1))
      office)) = 200"
    by (simp add: delete_user_route_def guarded_def isAuthenticated_def delete_user_def
        findById_def remove_def next_fails_def advance_def logged_in_def request_of_def
        office_def root_user_def alice_user_def root_session_def reply_def)
  have b: "status (fst (delete_user_route (logged_in root_session (request_of None [] [] 1))
      (office\<lparr>faults := [False, False, True]\<rparr>))) = 500"
    by (simp add: delete_user_route_def guarded_def isAuthenticated_def delete_user_def
        findById_def remove_def next_fails_def advance_def logged_in_def request_of_def
        office_def root_user_def alice_user_def root_session_def reply_def)
  from a delete_user_frame [of "logged_in root_session (request_of None [] [] 1)" office]
  have c: "\<exists>xs t ys. users office = xs @ t # ys \<and> uid t = 1 \<and>
      users (snd (delete_user_route (logged_in root_session (request_of None [] [] 1)) office)) =
        xs @ ys"
    by (simp add: p)
  from b delete_user_frame [of "logged_in root_session (request_of None [] [] 1)"
      "office\<lparr>faults := [False, False, True]\<rparr>"]
  have d: "users (snd (delete_user_route (logged_in root_session (request_of None [] [] 1))
      (office\<lparr>faults := [False, False, True]\<rparr>))) = [root_user, alice_user]"
    by (simp add: office_def)
  from a b c d show ?thesis by blast
qed

text \<open>
  C9. An admin may delete their own User. When the session's user is an admin, the
  target id is that admin's own id and the calls on the Credential Store do not fail,
  the answer is 200 "User deleted successfully" and the admin's own document is the one
  taken out of the collection; with unique ids, a lookup by that id finds nothing
  afterwards.
\<close>

theorem delete_user_self:
  assumes "no_faults w" and "session req = Some s" and "user s = Some su"
    and "find (\<lambda>u. uid u = su_id su) (users w) = Some a" and "role a = ''admin''"
    and "params_id req = su_id su"
  shows "fst (delete_user_route req w) = reply 200 (Message ''User deleted successfully'') \<and>
     (\<exists>xs ys. users w = xs @ a # ys \<and> users (snd (delete_user_route req w)) = xs @ ys) \<and>
     (distinct (map uid (users w)) \<longrightarrow>
        find (\<lambda>u. uid u = su_id su) (users (snd (delete_user_route req w))) = None)"
proof -
  from find_uid_Some [OF assms(4)] have i: "uid a = su_id su" by (rule conjunct1)
  from delete_user_calm [OF assms(1) assms(2) assms(3)] assms(4) assms(5) assms(6) i
  have r: "delete_user_route req w =
      (reply 200 (Message ''User deleted successfully''),
       (advance (advance (advance w)))\<lparr>users := deleteOne (su_id su) (users w)\<rparr>)"
    by simp
  from deleteOne_found [OF assms(4)] obtain xs ys where
    "users w = xs @ a # ys" "deleteOne (su_id su) (users w) = xs @ ys"
    by blast
  with r have "users w = xs @ a # ys \<and> users (snd (delete_user_route req w)) = xs @ ys"
    by simp
  then have "\<exists>xs ys. users w = xs @ a # ys \<and> users (snd (delete_user_route req w)) = xs @ ys"
    by blast
  with r show ?thesis by (simp add: deleteOne_gone)
qed

theorem delete_user_self_witness:
  "no_faults office \<and>
   find (\<lambda>u. uid u = su_id root_session) (users office) = Some root_user \<and>
   role root_user = ''admin'' \<and>
   fst (delete_user_route (logged_in root_session (request_of None [] [] 0)) office) =
     reply 200 (Message ''User deleted successfully'') \<and>
   find (\<lambda>u. uid u = su_id root_session)
     (users (snd (delete_user_route (logged_in root_session (request_of None [] [] 0)) office)))
     = None"
proof -
  have h: "no_faults office"
    by (simp add: no_faults_def office_def)
  have s: "session (logged_in root_session (request_of None [] [] 0)) =
      Some \<lparr>user = Some root_session\<rparr>"
    by (simp add: logged_in_def request_of_def)
  have u: "user \<lparr>user = Some root_session\<rparr> = Some root_session"
    by simp
  have f: "find (\<lambda>u. uid u = su_id root_session) (users office) = Some root_user"
    and r: "role root_user = ''admin''"
    and d: "distinct (map uid (users office))"
    by (simp_all add: office_def root_user_def alice_user_def root_session_def)
  have p: "params_id (logged_in root_session (request_of None [] [] 0)) = su_id root_session"
    by (simp add: logged_in_def request_of_def root_session_def)
  from delete_user_self [OF h s u f r p] d h f r show ?thesis by blast
qed

section \<open>Sessions across requests\<close>

lemma session_middleware_known:
  "cookie q = Some c \<Longrightarrow> sessions w c = Some s \<Longrightarrow>
   session_middleware q w = (q\<lparr>session := Some s, sessionID := c\<rparr>, w)"
  by (simp add: session_middleware_def)

lemma session_middleware_unknown:
  "cookie q = Some c \<Longrightarrow> sessions w c = None \<Longrightarrow>
   session_middleware q w = generate q w"
  by (simp add: session_middleware_def)

lemma session_middleware_attaches:
  "\<exists>s. session (fst (session_middleware q w)) = Some s"
  by (simp add: session_middleware_def generate_def split: option.splits)

text \<open>A sign-in that answers 200 leaves, under the cookie's id, a session with a user.\<close>

lemma serve_sign_in_ok:
  assumes "serve H SignIn q w = ((r, c), w')" and "status r = 200"
  shows "\<exists>s su. sessions w' c = Some s \<and> user s = Some su"
proof -
  obtain req w1 where m: "session_middleware q w = (req, w1)"
    by (cases "session_middleware q w")
  from session_middleware_attaches [of q w] m obtain s0 where s0: "session req = Some s0"
    by auto
  from assms m s0 show ?thesis
    by (auto simp: serve_def sign_in_def findOne_def end_response_def reply_def
        split: option.splits if_splits)
qed

text \<open>A registered user who gives the right password is signed in, the lookup not failing.\<close>

lemma serve_sign_in_registered:
  assumes "find (\<lambda>u. username u = body_username q) (users w) = Some u"
    and "compare H (body_password q) (password u)" and "\<not> next_fails w"
  shows "fst (fst (serve H SignIn q w)) = reply 200 (Message ''Logged in successfully'')"
proof -
  obtain req w1 where m: "session_middleware q w = (req, w1)"
    by (cases "session_middleware q w")
  then have same: "users w1 = users w" "faults w1 = faults w" "body_username req = body_username q"
    "body_password req = body_password q"
    by (auto simp: session_middleware_def generate_def split: option.splits)
  from session_middleware_attaches [of q w] m obtain s0 where s0: "session req = Some s0"
    by auto
  from same assms(3) have "\<not> next_fails w1" by (simp add: next_fails_def)
  with assms m same s0 show ?thesis
    by (simp add: serve_def sign_in_def findOne_def)
qed

text \<open>The probe under a session with a user answers 200 and changes nothing.\<close>

lemma serve_probe_logged_in:
  assumes "cookie q = Some c" and "sessions w c = Some s" and "user s = Some su"
  shows "serve H IsAuthenticated q w = ((reply 200 (Message ''Authenticated''), c), w)"
proof -
  from assms(2) have "(sessions w)(c \<mapsto> s) = sessions w"
    by (rule map_upd_triv)
  with assms show ?thesis
    by (simp add: serve_def session_middleware_known is_authenticated_route_def guarded_def
        isAuthenticated_def end_response_def)
qed

text \<open>The probe under a cookie the store has no record of answers 401.\<close>

lemma serve_probe_unknown:
  assumes "cookie q = Some c" and "sessions w c = None"
  shows "fst (fst (serve H IsAuthenticated q w)) =
     reply 401 (Message ''You must be logged in to access this'')"
  using assms
  by (simp add: serve_def session_middleware_unknown generate_def is_authenticated_route_def
      guarded_def isAuthenticated_def)

text \<open>A logout that answers 200 leaves no record under the cookie's id.\<close>

lemma serve_logout_ok:
  assumes "cookie q = Some c" and "sessions w c = Some s"
    and "serve H Logout q w = ((r, c'), w')" and "status r = 200"
  shows "sessions w' c = None"
  using assms
  by (auto simp: serve_def session_middleware_known logout_def destroy_def end_response_def
      reply_def split: if_splits)

text \<open>
  C7. A sign-in that answers 200 hands out a session id. The probe with that session id
  then answers 200 "Authenticated". After a logout with that session id that answers
  200, the probe with the same session id answers 401.
\<close>

theorem sign_in_probe_logout_probe:
  assumes "serve H SignIn q0 w0 = ((r1, c), w1)" and "status r1 = 200"
    and "cookie p1 = Some c" and "cookie q2 = Some c" and "cookie p3 = Some c"
    and "serve H Logout q2 (snd (serve H IsAuthenticated p1 w1)) = ((r3, c3), w3)"
    and "status r3 = 200"
  shows "fst (fst (serve H IsAuthenticated p1 w1)) = reply 200 (Message ''Authenticated'') \<and>
         fst (fst (serve H IsAuthenticated p3 w3)) =
           reply 401 (Message ''You must be logged in to access this'')"
proof -
  from serve_sign_in_ok [OF assms(1) assms(2)] obtain s su where
    s: "sessions w1 c = Some s" and su: "user s = Some su"
    by blast
  have probe: "serve H IsAuthenticated p1 w1 = ((reply 200 (Message ''Authenticated''), c), w1)"
    by (rule serve_probe_logged_in [OF assms(3) s su])
  with assms(6) have "serve H Logout q2 w1 = ((r3, c3), w3)"
    by simp
  from serve_logout_ok [OF assms(4) s this assms(7)] have "sessions w3 c = None" .
  from serve_probe_unknown [OF assms(5) this, of H] probe show ?thesis
    by simp
qed

lemma alice_signs_in:
  "serve toy_hasher SignIn (request_of None ''alice'' ''pw1'' 0) office =
     ((reply 200 (Message ''Logged in successfully''), 0), alice_signed_in)"
  by (simp add: serve_def session_middleware_def generate_def sign_in_def findOne_def
      next_fails_def advance_def end_response_def toy_hasher_def request_of_def office_def
      root_user_def alice_user_def alice_session_def alice_signed_in_def)

lemma alice_logs_out:
  "serve toy_hasher Logout (request_of (Some 0) [] [] 0) alice_signed_in =
     ((reply 200 (Message ''Logout successful''), 0), alice_signed_out)"
  by (simp add: serve_def session_middleware_def logout_def destroy_def
      next_fails_def advance_def end_response_def request_of_def office_def
      alice_signed_in_def alice_signed_out_def)

theorem sign_in_probe_logout_probe_witness:
  "status (fst (fst (serve toy_hasher SignIn (request_of None ''alice'' ''pw1'' 0) office))) = 200 \<and>
   fst (fst (serve toy_hasher IsAuthenticated (request_of (Some 0) [] [] 0) alice_signed_in)) =
     reply 200 (Message ''Authenticated'') \<and>
   status (fst (fst (serve toy_hasher Logout (request_of (Some 0) [] [] 0)
     (snd (serve toy_hasher IsAuthenticated (request_of (Some 0) [] [] 0) alice_signed_in))))) = 200 \<and>
   fst (fst (serve toy_hasher IsAuthenticated (request_of (Some 0) [] [] 0) alice_signed_out)) =
     reply 401 (Message ''You must be logged in to access this'')"
proof -
  have c: "cookie (request_of (Some 0) [] [] 0) = Some 0"
    by (simp add: request_of_def)
  have s: "status (reply 200 (Message m)) = 200" for m
    by (simp add: reply_def)
  have probe: "serve toy_hasher IsAuthenticated (request_of (Some 0) [] [] 0) alice_signed_in =
      ((reply 200 (Message ''Authenticated''), 0), alice_signed_in)"
    by (rule serve_probe_logged_in [OF c, of _ "\<lparr>user = Some alice_session\<rparr>" alice_session])
      (simp_all add: alice_signed_in_def)
  have out: "serve toy_hasher Logout (request_of (Some 0) [] [] 0)
      (snd (serve toy_hasher IsAuthenticated (request_of (Some 0) [] [] 0) alice_signed_in)) =
      ((reply 200 (Message ''Logout successful''), 0), alice_signed_out)"
    by (simp add: probe alice_logs_out)
  from sign_in_probe_logout_probe [OF alice_signs_in s c c c out s]
  show ?thesis
    by (simp add: alice_signs_in out s)
qed

section \<open>A session whose User is gone\<close>

lemma serve_delete_user_known:
  assumes "cookie q = Some c" and "sessions w c = Some s"
  shows "fst (fst (serve H DeleteUser q w)) =
       fst (delete_user_route (q\<lparr>session := Some s, sessionID := c\<rparr>) w) \<and>
     users (snd (serve H DeleteUser q w)) =
       users (snd (delete_user_route (q\<lparr>session := Some s, sessionID := c\<rparr>) w))"
  using assms
  by (simp add: serve_def session_middleware_known end_response_def split: prod.splits)

text \<open>
  C6, as the code has it. The guard reads the session payload only, so a live session
  whose user has no User document any more still passes it: the probe under such a
  session answers 200 "Authenticated". The delete handler, which looks the acting User
  up, answers 401 "Unauthorized" under such a session (when its lookup does not fail)
  and removes nothing.
\<close>

theorem stale_session_still_authenticated:
  assumes "cookie q = Some c" and "sessions w c = Some s" and "user s = Some su"
    and "find (\<lambda>u. uid u = su_id su) (users w) = None"
  shows "fst (fst (serve H IsAuthenticated q w)) = reply 200 (Message ''Authenticated'') \<and>
     (\<not> next_fails w \<longrightarrow>
        fst (fst (serve H DeleteUser q w)) = reply 401 (Message ''Unauthorized'') \<and>
        users (snd (serve H DeleteUser q w)) = users w)"
proof -
  have probe: "fst (fst (serve H IsAuthenticated q w)) = reply 200 (Message ''Authenticated'')"
    by (simp add: serve_probe_logged_in [OF assms(1) assms(2) assms(3)])
  have s': "session (q\<lparr>session := Some s, sessionID := c\<rparr>) = Some s"
    by simp
  have "delete_user_route (q\<lparr>session := Some s, sessionID := c\<rparr>) w =
      (reply 401 (Message ''Unauthorized''), advance w)" if "\<not> next_fails w"
    using that assms(4)
    by (simp add: delete_user_route_authenticated [OF s' assms(3)]
        delete_user_eval [OF s' assms(3)])
  with probe serve_delete_user_known [OF assms(1) assms(2), of H] show ?thesis
    by simp
qed

lemma root_signs_in:
  "serve toy_hasher SignIn (request_of None ''root'' ''toor'' 0) office =
     ((reply 200 (Message ''Logged in successfully''), 0), root_signed_in)"
  by (simp add: serve_def session_middleware_def generate_def sign_in_def findOne_def
      next_fails_def advance_def end_response_def toy_hasher_def request_of_def office_def
      root_user_def alice_user_def root_session_def root_signed_in_def)

lemma root_deletes_root:
  "serve toy_hasher DeleteUser (request_of (Some 0) [] [] 0) root_signed_in =
     ((reply 200 (Message ''User deleted successfully''), 0), root_gone)"
  by (simp add: serve_def session_middleware_def delete_user_route_def guarded_def
      isAuthenticated_def delete_user_def findById_def remove_def
      next_fails_def advance_def end_response_def request_of_def office_def
      root_user_def alice_user_def root_session_def root_signed_in_def root_gone_def)

theorem stale_session_still_authenticated_witness:
  "cookie (request_of (Some 0) [] [] 0) = Some 0 \<and>
   sessions root_gone 0 = Some \<lparr>user = Some root_session\<rparr> \<and>
   find (\<lambda>u. uid u = su_id root_session) (users root_gone) = None \<and>
   \<not> next_fails root_gone \<and>
   fst (fst (serve toy_hasher IsAuthenticated (request_of (Some 0) [] [] 0) root_gone)) =
     reply 200 (Message ''Authenticated'') \<and>
   fst (fst (serve toy_hasher DeleteUser (request_of (Some 0) [] [] 1) root_gone)) =
     reply 401 (Message ''Unauthorized'')"
proof -
  have c: "cookie (request_of (Some 0) [] [] i) = Some 0" for i
    by (simp add: request_of_def)
  have s: "sessions root_gone 0 = Some \<lparr>user = Some root_session\<rparr>"
    by (simp add: root_gone_def root_signed_in_def)
  have u: "user \<lparr>user = Some root_session\<rparr> = Some root_session"
    by simp
  have f: "find (\<lambda>u. uid u = su_id root_session) (users root_gone) = None"
    by (simp add: root_gone_def root_signed_in_def alice_user_def root_session_def)
  have n: "\<not> next_fails root_gone"
    by (simp add: next_fails_def root_gone_def root_signed_in_def office_def)
  from stale_session_still_authenticated [where H = toy_hasher, OF c [of 0] s u f]
    stale_session_still_authenticated [where H = toy_hasher, OF c [of 1] s u f] c s f n
  show ?thesis by simp
qed

text \<open>
  The claim C6 as it is written fails on the code. The admin root signs in, deletes their
  own User under that session, and probes with the same session: the session is still in
  the store, no User has its user's id, and the probe answers 200, not 401.
\<close>

theorem stale_session_counterexample:
  "serve toy_hasher SignIn (request_of None ''root'' ''toor'' 0) office =
     ((reply 200 (Message ''Logged in successfully''), 0), root_signed_in) \<and>
   serve toy_hasher DeleteUser (request_of (Some 0) [] [] 0) root_signed_in =
     ((reply 200 (Message ''User deleted successfully''), 0), root_gone) \<and>
   sessions root_gone 0 = Some \<lparr>user = Some root_session\<rparr> \<and>
   users root_gone = [alice_user] \<and> uid alice_user \<noteq> su_id root_session \<and>
   fst (fst (serve toy_hasher IsAuthenticated (request_of (Some 0) [] [] 0) root_gone)) =
     reply 200 (Message ''Authenticated'') \<and>
   status (fst (fst (serve toy_hasher IsAuthenticated (request_of (Some 0) [] [] 0) root_gone)))
     \<noteq> 401"
proof -
  have p: "fst (fst (serve toy_hasher IsAuthenticated (request_of (Some 0) [] [] 0) root_gone)) =
     reply 200 (Message ''Authenticated'')"
    by (simp add: serve_def session_middleware_def is_authenticated_route_def guarded_def
        isAuthenticated_def request_of_def root_gone_def root_signed_in_def)
  have s: "sessions root_gone 0 = Some \<lparr>user = Some root_session\<rparr>"
    by (simp add: root_gone_def root_signed_in_def)
  have f: "users root_gone = [alice_user] \<and> uid alice_user \<noteq> su_id root_session"
    by (simp add: root_gone_def root_signed_in_def alice_user_def root_session_def)
  from p have "status (fst (fst (serve toy_hasher IsAuthenticated
      (request_of (Some 0) [] [] 0) root_gone))) \<noteq> 401"
    by (simp add: reply_def)
  with root_signs_in root_deletes_root s f p show ?thesis by blast
qed

section \<open>The Credential Store keeps ids and usernames unique\<close>

text \<open>
  The theorems on deletion assume that no two Users share an id, or a username. Both
  hold of the empty store and are kept by every request, whatever the stores answer.
\<close>

lemma deleteOne_distinct_map: "distinct (map f us) \<Longrightarrow> distinct (map f (deleteOne i us))"
proof (induction us)
  case Nil
  then show ?case by simp
next
  case (Cons u us)
  have "f ` set (deleteOne i us) \<subseteq> f ` set us"
    using deleteOne_subset [of i us] by (rule image_mono)
  with Cons show ?case by auto
qed

lemma store_inv_deleteOne:
  assumes "store_inv w" and "users w' = deleteOne i (users w)" and "next_id w' = next_id w"
  shows "store_inv w'"
proof -
  from assms(1) have b: "\<forall>u\<in>set (users w). uid u < next_id w"
    by (simp add: store_inv_def)
  with deleteOne_subset [of i "users w"] have "\<forall>u\<in>set (deleteOne i (users w)). uid u < next_id w"
    by blast
  with assms show ?thesis
    by (simp add: store_inv_def deleteOne_distinct_map)
qed

lemma store_inv_same:
  "store_inv w \<Longrightarrow> users w' = users w \<Longrightarrow> next_id w' = next_id w \<Longrightarrow> store_inv w'"
  by (simp add: store_inv_def)

lemma next_id_delete_user: "next_id (snd (delete_user req w)) = next_id w"
  by (simp add: delete_user_def findById_def remove_def split: option.splits)

lemma next_id_delete_user_route: "next_id (snd (delete_user_route req w)) = next_id w"
  by (simp add: delete_user_route_def guarded_def next_id_delete_user split: verdict.splits)

lemma store_inv_delete_user_route:
  assumes "store_inv w"
  shows "store_inv (snd (delete_user_route req w))"
proof -
  from delete_user_route_outcomes [of req w]
  have "users (snd (delete_user_route req w)) = users w \<or>
      users (snd (delete_user_route req w)) = deleteOne (params_id req) (users w)"
    by blast
  then show ?thesis
  proof
    assume "users (snd (delete_user_route req w)) = users w"
    from store_inv_same [OF assms this next_id_delete_user_route] show ?thesis .
  next
    assume "users (snd (delete_user_route req w)) = deleteOne (params_id req) (users w)"
    from store_inv_deleteOne [OF assms this next_id_delete_user_route] show ?thesis .
  qed
qed

lemma store_inv_sign_up:
  assumes "store_inv w"
  shows "store_inv (snd (sign_up H req w))"
proof (cases "\<not> next_fails w \<and> \<not> next_fails (advance w) \<and>
    find (\<lambda>u. username u = body_username req) (users w) = None")
  case True
  then have fresh: "\<forall>u\<in>set (users w). username u \<noteq> body_username req"
    by (simp add: find_username_None)
  from assms have "\<forall>u\<in>set (users w). uid u < next_id w"
    by (simp add: store_inv_def)
  then have "\<forall>u\<in>set (users w). uid u \<noteq> next_id w \<and> uid u < Suc (next_id w)"
    by auto
  with True assms fresh show ?thesis
    by (auto simp: sign_up_created store_inv_def)
next
  case False
  then have "users (snd (sign_up H req w)) = users w \<and> next_id (snd (sign_up H req w)) = next_id w"
    by (auto simp: sign_up_def findOne_def save_def split: option.splits)
  with assms show ?thesis by (simp add: store_inv_same)
qed

lemma store_inv_serve:
  assumes "store_inv w"
  shows "store_inv (snd (serve H rt q w))"
proof -
  obtain req w1 where m: "session_middleware q w = (req, w1)"
    by (cases "session_middleware q w")
  then have "users w1 = users w \<and> next_id w1 = next_id w"
    by (auto simp: session_middleware_def generate_def split: option.splits)
  with assms have i1: "store_inv w1" by (simp add: store_inv_same)
  have e: "store_inv (end_response i so w')" if "store_inv w'" for i so w'
    using that by (simp add: end_response_def store_inv_def split: option.splits)
  show ?thesis
  proof (cases rt)
    case SignUp
    with m e [OF store_inv_sign_up [OF i1, of H req]] show ?thesis
      by (simp add: serve_def split_beta)
  next
    case SignIn
    have "users (snd (snd (sign_in H req w1))) = users w1 \<and>
        next_id (snd (snd (sign_in H req w1))) = next_id w1"
      by (simp add: sign_in_def findOne_def split: option.splits)
    with i1 have "store_inv (snd (snd (sign_in H req w1)))" by (simp add: store_inv_same)
    from e [OF this] SignIn m show ?thesis
      by (simp add: serve_def split_beta)
  next
    case Logout
    have "users (snd (snd (logout req w1))) = users w1 \<and>
        next_id (snd (snd (logout req w1))) = next_id w1"
      by (simp add: logout_def destroy_def split: option.splits)
    with i1 have "store_inv (snd (snd (logout req w1)))" by (simp add: store_inv_same)
    from e [OF this] Logout m show ?thesis
      by (simp add: serve_def split_beta)
  next
    case DeleteUser
    with m e [OF store_inv_delete_user_route [OF i1, of req]] show ?thesis
      by (simp add: serve_def split_beta)
  next
    case IsAuthenticated
    have "snd (is_authenticated_route req w1) = w1"
      by (simp add: is_authenticated_route_def guarded_def split: verdict.splits)
    with i1 have "store_inv (snd (is_authenticated_route req w1))" by simp
    from e [OF this] IsAuthenticated m show ?thesis
      by (simp add: serve_def split_beta)
  qed
qed

lemma store_inv_empty:
  "store_inv \<lparr>users = [], next_id = 0, sessions = Map.empty, next_sid = 0, faults = fs\<rparr>"
  by (simp add: store_inv_def)

end
